theory Spec2Isabelle
  imports Main
begin

section \<open>gpt-commit-msg: the recursive diff summarizer\<close>

text \<open>
  A shallow embedding of \<^verbatim>\<open>gpt_commit_msg.py\<close>: the budget table
  \<^verbatim>\<open>max_token_count\<close>, the recursive function \<^verbatim>\<open>summarize\<close> and the driver
  \<^verbatim>\<open>commit_message\<close>. Python strings are \<open>string\<close>, Python integers are \<open>int\<close>,
  exceptions are values of \<open>error\<close>. Calls to \<^verbatim>\<open>logging\<close> write to a log file and
  do not influence any value; they are left out.
\<close>

subsection \<open>The external collaborator and the budget table\<close>

text \<open>
  The \<^verbatim>\<open>llm\<close> object comes from the library \<^verbatim>\<open>llmlib\<close>; the program uses two of
  its methods. Both are parameters of the model: \<open>ask\<close> is the answer of the language
  model to a query, \<open>get_num_tokens\<close> is the tokenizer.
\<close>

record llm =
  ask :: "string \<Rightarrow> string"
  get_num_tokens :: "string \<Rightarrow> int"

text \<open>
  The exceptions the program itself can raise: a missing key in the dictionary
  \<^verbatim>\<open>max_token_count\<close>, and an index out of range (\<^verbatim>\<open>splitre[0]\<close>,
  \<^verbatim>\<open>parts[0]\<close>).
\<close>

datatype error = KeyError | IndexError

text \<open>
  \<^verbatim>\<open>max_token_count = {"gpt-4": 8192, "gpt-3.5-turbo": 4097}\<close>
\<close>

definition max_token_count :: "string \<rightharpoonup> int" where
  "max_token_count = [''gpt-4'' \<mapsto> 8192, ''gpt-3.5-turbo'' \<mapsto> 4097]"

text \<open>
  The subscript \<^verbatim>\<open>max_token_count[args.model]\<close>: the value, or \<^verbatim>\<open>KeyError\<close>.
  The global \<^verbatim>\<open>args.model\<close> is the parameter \<open>model\<close> of every function below.
\<close>

definition budget_for :: "string \<Rightarrow> error + int" where
  "budget_for model =
     (case max_token_count model of None \<Rightarrow> Inl KeyError | Some b \<Rightarrow> Inr b)"

subsection \<open>The effect trace\<close>

text \<open>
  What a run does besides returning: the queries sent to \<^verbatim>\<open>llm.ask\<close> and the
  invocations of \<^verbatim>\<open>summarize\<close>, in the order they happen. An invocation is
  recorded with its recursion depth (0 for a call from \<^verbatim>\<open>commit_message\<close>), its
  text, its ladder \<^verbatim>\<open>splitre\<close> and its prompt. A run returns either a value or an
  exception, and in both cases the trace so far.
\<close>

datatype pattern = DiffHdr | BlankLine | Newline

datatype call = Ask string | Summarize nat string "pattern list" string

type_synonym trace = "call list"

type_synonym 'a result = "error \<times> trace + 'a \<times> trace"

subsection \<open>Splitting: \<^verbatim>\<open>re.split\<close> and \<^verbatim>\<open>re.match\<close> on the three ladder patterns\<close>

text \<open>
  The ladder of \<^verbatim>\<open>summarize\<close> holds three regular expressions:
  \<open>DiffHdr\<close> is \<^verbatim>\<open>r"^(diff )"\<close>, \<open>BlankLine\<close> is \<^verbatim>\<open>"^$"\<close> and \<open>Newline\<close> is
  \<^verbatim>\<open>"\n"\<close>. The functions below are what Python's \<^verbatim>\<open>re.split(p, text,
  flags=re.MULTILINE)\<close> returns for each of them. The flag \<open>bol\<close> says that the
  scan is at the beginning of a line (at the start of the text or just after a newline),
  \<open>acc\<close> is the segment since the last match.
\<close>

definition nl :: char where
  "nl = CHR 0x0A"

text \<open>
  \<^verbatim>\<open>^(diff )\<close> matches the five characters \<^verbatim>\<open>"diff "\<close> at the beginning of a
  line. The pattern has a capturing group, so \<^verbatim>\<open>re.split\<close> puts the matched text
  into the list, between the segment before it and the segment after it.
\<close>

function split_diff :: "bool \<Rightarrow> string \<Rightarrow> string \<Rightarrow> string list" where
  "split_diff bol acc [] = [acc]"
| "split_diff bol acc (c # cs) =
     (if bol \<and> take 5 (c # cs) = ''diff ''
      then acc # ''diff '' # split_diff False [] (drop 5 (c # cs))
      else split_diff (c = nl) (acc @ [c]) cs)"
  by pat_completeness auto
termination
  by (relation "measure (\<lambda>(bol, acc, s). length s)") auto

text \<open>
  \<^verbatim>\<open>^$\<close> matches the empty string at the beginning of a line that is also the end of
  a line (before a newline or at the end of the text). \<^verbatim>\<open>re.split\<close> (Python 3.7 and
  later) splits at empty matches, once at each position.
\<close>

fun split_blank :: "bool \<Rightarrow> string \<Rightarrow> string \<Rightarrow> string list" where
  "split_blank bol acc [] = (if bol then [acc, []] else [acc])"
| "split_blank bol acc (c # cs) =
     (if bol \<and> c = nl
      then acc # split_blank True [c] cs
      else split_blank (c = nl) (acc @ [c]) cs)"

text \<open>\<^verbatim>\<open>\n\<close> matches one newline; the newline is not part of any segment.\<close>

fun split_nl :: "string \<Rightarrow> string \<Rightarrow> string list" where
  "split_nl acc [] = [acc]"
| "split_nl acc (c # cs) =
     (if c = nl then acc # split_nl [] cs else split_nl (acc @ [c]) cs)"

fun re_split :: "pattern \<Rightarrow> string \<Rightarrow> string list" where
  "re_split DiffHdr text = split_diff True [] text"
| "re_split BlankLine text = split_blank True [] text"
| "re_split Newline text = split_nl [] text"

text \<open>
  \<^verbatim>\<open>re.match(p, part)\<close> is called without \<^verbatim>\<open>re.MULTILINE\<close> and anchors at the
  start of \<open>part\<close>: \<^verbatim>\<open>^(diff )\<close> matches when \<open>part\<close> starts with \<^verbatim>\<open>"diff "\<close>;
  \<^verbatim>\<open>^$\<close> matches the empty string and the string that is one newline (\<^verbatim>\<open>$\<close>
  also matches just before a final newline); \<^verbatim>\<open>\n\<close> matches when \<open>part\<close> starts
  with a newline. A match object is always true.
\<close>

fun re_match :: "pattern \<Rightarrow> string \<Rightarrow> bool" where
  "re_match DiffHdr part = (take 5 part = ''diff '')"
| "re_match BlankLine part = (part = [] \<or> part = [nl])"
| "re_match Newline part = (take 1 part = [nl])"

text \<open>
  Lines 65 to 73: the loop that puts a split-off delimiter back together with the part
  that follows it.
  \<^verbatim>\<open>
    combined_parts = []
    for part in parts:
        if re.match(splitre[0], part) or not combined_parts:
            combined_parts.append(part)
        else:
            combined_parts[-1] += part
  \<close>
\<close>

fun combine :: "pattern \<Rightarrow> string list \<Rightarrow> string list \<Rightarrow> string list" where
  "combine pat combined_parts [] = combined_parts"
| "combine pat combined_parts (part # parts) =
     (if re_match pat part \<or> combined_parts = []
      then combine pat (combined_parts @ [part]) parts
      else combine pat (butlast combined_parts @ [last combined_parts @ part]) parts)"

definition split_parts :: "pattern \<Rightarrow> string \<Rightarrow> string list" where
  "split_parts pat text = combine pat [] (re_split pat text)"

subsection \<open>The chunk loop\<close>

text \<open>
  Lines 75 to 90. The loop body is the same for every way of handling a closed chunk, so
  the handling (lines 83 to 87) is the parameter \<open>flush\<close>; \<open>st\<close> is the state it
  updates (in \<^verbatim>\<open>summarize\<close>: the list \<^verbatim>\<open>summaries\<close> and the trace).
  \<^verbatim>\<open>
    for part in parts[1:]:
        part_tcount = llm.get_num_tokens(part)
        if chunk_tcount + part_tcount >= max_token_count[args.model]:
            text = "".join(chunk)
            chunk = []
            ...                                       # flush
            chunk_tcount = sum(llm.get_num_tokens(c) for c in chunk)
        chunk.append(part)
        chunk_tcount += part_tcount
  \<close>
  The result holds the values of \<^verbatim>\<open>chunk\<close> and \<^verbatim>\<open>chunk_tcount\<close> when the loop
  ends, and the final state.
\<close>

fun chunk_loop ::
  "(string list \<Rightarrow> 's \<Rightarrow> 'e + 's) \<Rightarrow> (string \<Rightarrow> int) \<Rightarrow> int \<Rightarrow> string list \<Rightarrow>
   string list \<Rightarrow> int \<Rightarrow> 's \<Rightarrow> 'e + (string list \<times> int \<times> 's)" where
  "chunk_loop flush tok budget [] chunk chunk_tcount st = Inr (chunk, chunk_tcount, st)"
| "chunk_loop flush tok budget (part # parts) chunk chunk_tcount st =
     (let part_tcount = tok part in
      if chunk_tcount + part_tcount \<ge> budget
      then (case flush chunk st of
              Inl e \<Rightarrow> Inl e
            | Inr st' \<Rightarrow>
                chunk_loop flush tok budget parts ([] @ [part])
                  (sum_list (map tok []) + part_tcount) st')
      else chunk_loop flush tok budget parts (chunk @ [part]) (chunk_tcount + part_tcount) st)"

subsection \<open>summarize\<close>

text \<open>
  Lines 48 to 91. The budget is looked up once (the dictionary and \<^verbatim>\<open>args.model\<close>
  do not change during a run, so the later subscripts give the same value). The
  recursive call of line 85 passes \<^verbatim>\<open>splitre[1:]\<close>, here \<open>rest\<close>. Line 81
  assigns the joined chunk to \<^verbatim>\<open>text\<close>, here \<open>text1\<close>. The parameters \<open>depth\<close>
  and \<open>tr0\<close> are not in the source: they are the recursion depth of the call and the
  trace before it, and only the trace depends on them. Nothing after the loop handles the
  chunk that is open when the loop ends: line 91 returns \<^verbatim>\<open>summaries\<close>.
\<close>

fun summarize ::
  "llm \<Rightarrow> string \<Rightarrow> nat \<Rightarrow> string \<Rightarrow> pattern list \<Rightarrow> string \<Rightarrow> trace \<Rightarrow> string list result" where
  "summarize llm model depth text splitre prompt tr0 =
     (let tr = tr0 @ [Summarize depth text splitre prompt];
          query = prompt @ text;
          tcount = get_num_tokens llm query
      in case max_token_count model of
           None \<Rightarrow> Inl (KeyError, tr)
         | Some budget \<Rightarrow>
             if tcount \<le> budget
             then Inr ([ask llm (prompt @ text)], tr @ [Ask (prompt @ text)])
             else (case splitre of
                     [] \<Rightarrow> Inl (IndexError, tr)
                   | pat # rest \<Rightarrow>
                       (case split_parts pat text of
                          [] \<Rightarrow> Inl (IndexError, tr)
                        | part0 # parts \<Rightarrow>
                            (case chunk_loop
                                    (\<lambda>chunk (summaries, tr1).
                                       let text1 = concat chunk
                                       in if get_num_tokens llm text1 > budget
                                          then (case summarize llm model (Suc depth) text1 rest
                                                       prompt tr1 of
                                                  Inl e \<Rightarrow> Inl e
                                                | Inr (sub, tr2) \<Rightarrow> Inr (summaries @ sub, tr2))
                                          else Inr (summaries @ [ask llm (prompt @ text1)],
                                                    tr1 @ [Ask (prompt @ text1)]))
                                    (get_num_tokens llm) budget parts [part0]
                                    (get_num_tokens llm part0) ([], tr) of
                               Inl e \<Rightarrow> Inl e
                             | Inr (chunk, chunk_tcount, summaries, tr1) \<Rightarrow>
                                 Inr (summaries, tr1)))))"

subsection \<open>commit_message\<close>

text \<open>
  The default arguments of \<^verbatim>\<open>summarize\<close> (lines 50 to 55), the prompt of line 41
  (the source's text, with its \<^verbatim>\<open>.n\<close>), the heading and the separator of
  \<^verbatim>\<open>"\n\n".join\<close>.
\<close>

definition splitre_default :: "pattern list" where
  "splitre_default = [DiffHdr, BlankLine, Newline]"

definition prompt_default :: string where
  "prompt_default =
     ''Make an unordered list of the effects of every change in this diff.'' @ [nl, nl]"

definition prompt_compress :: string where
  "prompt_compress =
     ''Make an unordered list that summarizes the changes described below.n'' @ [nl]"

definition more_detail :: string where
  "more_detail = ''## More Detail''"

definition sep :: string where
  "sep = [nl, nl]"

text \<open>Python's \<^verbatim>\<open>s.join(xs)\<close>.\<close>

fun join :: "string \<Rightarrow> string list \<Rightarrow> string" where
  "join s [] = []"
| "join s [x] = x"
| "join s (x # y # ys) = x @ s @ join s (y # ys)"

text \<open>
  Lines 36 to 43, the loop \<^verbatim>\<open>while True\<close>. Nothing in the source bounds the number
  of its iterations, so the model takes \<open>fuel\<close>, the number of times the loop test may
  be evaluated, and returns \<open>None\<close> when that is not enough.
  \<^verbatim>\<open>
    while True:
        if llm.get_num_tokens(prompt + overall_summary) <= max_token_count[args.model]:
            break
        summaries = summarize(llm, overall_summary, prompt="Make an ... below.n\n")
        result = summaries + ["## More Detail"] + result
        overall_summary = "\n\n".join(summaries)
  \<close>
\<close>

fun compress_loop ::
  "nat \<Rightarrow> llm \<Rightarrow> string \<Rightarrow> string \<Rightarrow> string list \<Rightarrow> string \<Rightarrow> trace \<Rightarrow>
   (string list \<times> string) result option" where
  "compress_loop 0 llm model prompt result overall_summary tr = None"
| "compress_loop (Suc fuel) llm model prompt result overall_summary tr =
     (case max_token_count model of
        None \<Rightarrow> Some (Inl (KeyError, tr))
      | Some budget \<Rightarrow>
          if get_num_tokens llm (prompt @ overall_summary) \<le> budget
          then Some (Inr ((result, overall_summary), tr))
          else (case summarize llm model 0 overall_summary splitre_default prompt_compress tr of
                  Inl e \<Rightarrow> Some (Inl e)
                | Inr (summaries, tr1) \<Rightarrow>
                    compress_loop fuel llm model prompt (summaries @ [more_detail] @ result)
                      (join sep summaries) tr1))"

text \<open>
  Lines 24 to 46. \<^verbatim>\<open>result.insert(0, x)\<close> puts \<open>x\<close> in front of \<open>result\<close>.
\<close>

definition commit_message ::
  "nat \<Rightarrow> llm \<Rightarrow> string \<Rightarrow> string \<Rightarrow> string \<Rightarrow> string result option" where
  "commit_message fuel llm model diff prompt =
     (let tcount = get_num_tokens llm (prompt @ diff)
      in case max_token_count model of
           None \<Rightarrow> Some (Inl (KeyError, []))
         | Some budget \<Rightarrow>
             if tcount \<le> budget
             then Some (Inr (ask llm (prompt @ diff), [Ask (prompt @ diff)]))
             else (case summarize llm model 0 diff splitre_default prompt_default [] of
                     Inl e \<Rightarrow> Some (Inl e)
                   | Inr (summaries, tr) \<Rightarrow>
                       (case compress_loop fuel llm model prompt ([more_detail] @ summaries)
                               (join sep summaries) tr of
                          None \<Rightarrow> None
                        | Some (Inl e) \<Rightarrow> Some (Inl e)
                        | Some (Inr ((result, overall_summary), tr1)) \<Rightarrow>
                            Some (Inr (join sep (ask llm (prompt @ overall_summary) # result),
                                       tr1 @ [Ask (prompt @ overall_summary)])))))"

subsection \<open>Auxiliary notions for the statements\<close>

text \<open>The trace of a run, whether it returned or raised.\<close>

fun trace_of :: "'a result \<Rightarrow> trace" where
  "trace_of (Inl (e, tr)) = tr"
| "trace_of (Inr (v, tr)) = tr"

text \<open>
  A client whose tokenizer counts one token per character, with any answer function: the
  concrete inputs below use it with the budget of \<^verbatim>\<open>gpt-3.5-turbo\<close>, 4097.
\<close>

definition char_llm :: "(string \<Rightarrow> string) \<Rightarrow> llm" where
  "char_llm answer = \<lparr>ask = answer, get_num_tokens = (\<lambda>s. int (length s))\<rparr>"

text \<open>
  What the trace of a run of \<^verbatim>\<open>summarize\<close> at depth \<open>depth\<close> with ladder
  \<open>splitre\<close> may hold: an invocation at depth \<open>d\<close> is at most \<open>length splitre\<close>
  levels below, its ladder is what is left of \<open>splitre\<close> after \<open>d - depth\<close> rungs,
  and its prompt is the caller's.
\<close>

fun call_ok :: "nat \<Rightarrow> pattern list \<Rightarrow> string \<Rightarrow> call \<Rightarrow> bool" where
  "call_ok depth splitre prompt (Ask q) = True"
| "call_ok depth splitre prompt (Summarize d t l p) =
     (depth \<le> d \<and> d \<le> depth + length splitre \<and> l = drop (d - depth) splitre \<and> p = prompt)"

definition extends :: "nat \<Rightarrow> pattern list \<Rightarrow> string \<Rightarrow> trace \<Rightarrow> trace \<Rightarrow> bool" where
  "extends depth splitre prompt tr0 tr =
     (\<exists>new. tr = tr0 @ new \<and> (\<forall>c\<in>set new. call_ok depth splitre prompt c))"

text \<open>
  The chunks that lines 75 to 90 form from \<open>parts\<close>: the loop itself, with a handler
  that only records the chunk it is given. The closed chunks come first; the chunk that is
  still open when the loop ends is the last one.
\<close>

definition record_chunk :: "string list \<Rightarrow> string list list \<Rightarrow> error + string list list" where
  "record_chunk chunk closed = Inr (closed @ [chunk])"

definition assemble :: "(string \<Rightarrow> int) \<Rightarrow> int \<Rightarrow> string list \<Rightarrow> error + string list list" where
  "assemble tok budget parts =
     (case parts of
        [] \<Rightarrow> Inl IndexError
      | part0 # rest \<Rightarrow>
          (case chunk_loop record_chunk tok budget rest [part0] (tok part0) [] of
             Inl e \<Rightarrow> Inl e
           | Inr (chunk, chunk_tcount, closed) \<Rightarrow> Inr (closed @ [chunk])))"

text \<open>
  The chunk assembler in the words of the specification (section 4.3), for comparison:
  parts accumulate into the current chunk while the token total of the current chunk plus
  the next part stays under the budget; when adding the next part would reach or exceed
  the budget, the current chunk is closed and the part starts a new one.
\<close>

fun spec_chunks ::
  "(string \<Rightarrow> int) \<Rightarrow> int \<Rightarrow> string list \<Rightarrow> string list \<Rightarrow> string list list" where
  "spec_chunks tok budget current [] = [current]"
| "spec_chunks tok budget current (part # parts) =
     (if sum_list (map tok current) + tok part < budget
      then spec_chunks tok budget (current @ [part]) parts
      else current # spec_chunks tok budget [part] parts)"

text \<open>
  Concrete inputs: a line of 5000 characters, and a diff of two files, the first with
  \<open>n\<close> characters after its header and the second with \<open>m\<close>.
\<close>

definition long_line :: string where
  "long_line = replicate 5000 (CHR ''a'')"

definition file_a :: "nat \<Rightarrow> string" where
  "file_a n = ''diff '' @ replicate n (CHR ''a'') @ [nl]"

definition file_b :: "nat \<Rightarrow> string" where
  "file_b m = ''diff '' @ replicate m (CHR ''b'')"

definition two_files :: "nat \<Rightarrow> nat \<Rightarrow> string" where
  "two_files n m =
     ''diff '' @ replicate n (CHR ''a'') @ [nl] @ ''diff '' @ replicate m (CHR ''b'')"

text \<open>
  The default of the command line option \<^verbatim>\<open>--prompt\<close> (lines 118 to 122), and a
  language model for a run with three summarization passes: its answers to the first two
  summarization queries are again diffs of two files, its other answers are short.
\<close>

definition prompt_cli :: string where
  "prompt_cli =
     ''Write a git commit message for the following. The message starts with a one-line '' @
     ''summary of 60 characters, followed by a blank line, followed by a longer but concise '' @
     ''description of the change.'' @ [nl, nl]"

definition demo_answer :: "string \<Rightarrow> string" where
  "demo_answer q =
     (if length q = 4075 then two_files 3000 4000
      else if length q = 3075 then two_files 2000 4000
      else ''- summary'')"

text \<open>
  The passes of the compression driver in the words of the specification (section 4.5),
  for comparison. A layer is the summaries of one pass, with the trace after it. Given the
  layer of the first pass, \<open>later\<close> lists the layers of the compression passes in the
  order they are made: while the joined summaries of the newest layer, with the final
  prompt in front, exceed the budget, the next layer is \<^verbatim>\<open>summarize\<close> of those joined
  summaries under the compression prompt; the last layer is the first one that fits.
\<close>

fun spec_passes ::
  "llm \<Rightarrow> string \<Rightarrow> string \<Rightarrow> int \<Rightarrow> string list \<times> trace \<Rightarrow> (string list \<times> trace) list \<Rightarrow> bool" where
  "spec_passes llm model prompt budget (s, t) [] =
     (get_num_tokens llm (prompt @ join sep s) \<le> budget)"
| "spec_passes llm model prompt budget (s, t) ((s1, t1) # later) =
     (budget < get_num_tokens llm (prompt @ join sep s) \<and>
      summarize llm model 0 (join sep s) splitre_default prompt_compress t = Inr (s1, t1) \<and>
      spec_passes llm model prompt budget (s1, t1) later)"

section \<open>Basic facts\<close>

declare summarize.simps [simp del]

lemma max_token_count_cases:
  "max_token_count model =
     (if model = ''gpt-3.5-turbo'' then Some 4097
      else if model = ''gpt-4'' then Some 8192 else None)"
  by (simp add: max_token_count_def)

lemma summarize_unknown_model:
  "max_token_count model = None \<Longrightarrow>
   summarize llm model depth text splitre prompt tr =
     Inl (KeyError, tr @ [Summarize depth text splitre prompt])"
  by (simp add: summarize.simps)

lemma summarize_base:
  "max_token_count model = Some budget \<Longrightarrow> get_num_tokens llm (prompt @ text) \<le> budget \<Longrightarrow>
   summarize llm model depth text splitre prompt tr =
     Inr ([ask llm (prompt @ text)],
          tr @ [Summarize depth text splitre prompt, Ask (prompt @ text)])"
  by (simp add: summarize.simps)

lemma summarize_exhausted:
  "max_token_count model = Some budget \<Longrightarrow> budget < get_num_tokens llm (prompt @ text) \<Longrightarrow>
   summarize llm model depth text [] prompt tr =
     Inl (IndexError, tr @ [Summarize depth text [] prompt])"
  by (simp add: summarize.simps)

lemma summarize_single:
  "max_token_count model = Some budget \<Longrightarrow> budget < get_num_tokens llm (prompt @ text) \<Longrightarrow>
   split_parts pat text = [part] \<Longrightarrow>
   summarize llm model depth text (pat # rest) prompt tr =
     Inr ([], tr @ [Summarize depth text (pat # rest) prompt])"
  by (simp add: summarize.simps)

text \<open>\<^verbatim>\<open>parts[0]\<close> of line 75 never fails: the split always yields a part.\<close>

lemma combine_not_Nil:
  "combined \<noteq> [] \<or> parts \<noteq> [] \<Longrightarrow> combine pat combined parts \<noteq> []"
  by (induction parts arbitrary: combined) auto

lemma split_diff_not_Nil: "split_diff bol acc s \<noteq> []"
  by (induction bol acc s rule: split_diff.induct) auto

lemma split_blank_not_Nil: "split_blank bol acc s \<noteq> []"
  by (induction s arbitrary: bol acc) auto

lemma split_nl_not_Nil: "split_nl acc s \<noteq> []"
  by (induction s arbitrary: acc) auto

lemma re_split_not_Nil: "re_split pat text \<noteq> []"
  by (cases pat) (simp_all add: split_diff_not_Nil split_blank_not_Nil split_nl_not_Nil)

lemma split_parts_not_Nil: "split_parts pat text \<noteq> []"
  by (simp add: split_parts_def combine_not_Nil re_split_not_Nil)

section \<open>The chunk loop and the trace\<close>

text \<open>
  An invariant of the state that every flush preserves, or hands over to the exception it
  raises, holds when the loop ends.
\<close>

lemma chunk_loop_inv:
  assumes "I st"
    and "\<And>chunk st. I st \<Longrightarrow> (case flush chunk st of Inl e \<Rightarrow> E e | Inr st' \<Rightarrow> I st')"
  shows "case chunk_loop flush tok budget parts chunk tc st of
           Inl e \<Rightarrow> E e | Inr (c, t, st') \<Rightarrow> I st'"
  using assms(1)
proof (induction parts arbitrary: chunk tc st)
  case Nil
  then show ?case by simp
next
  case (Cons part parts)
  show ?case
  proof (cases "budget \<le> tc + tok part")
    case True
    show ?thesis
    proof (cases "flush chunk st")
      case (Inl e)
      with assms(2) [OF Cons.prems, of chunk] True show ?thesis by simp
    next
      case (Inr st')
      with assms(2) [OF Cons.prems, of chunk] have "I st'" by simp
      from Cons.IH [OF this] Inr True show ?thesis by simp
    qed
  next
    case False
    with Cons.IH [OF Cons.prems] show ?thesis by simp
  qed
qed

lemma call_ok_deeper:
  "call_ok (Suc depth) rest prompt c \<Longrightarrow> call_ok depth (pat # rest) prompt c"
proof (cases c)
  case (Ask q)
  then show ?thesis by simp
next
  case (Summarize d t l p)
  assume ok: "call_ok (Suc depth) rest prompt c"
  with Summarize obtain k where d: "d = Suc depth + k"
    by (auto simp: le_iff_add)
  with ok Summarize show ?thesis by simp
qed

lemma extends_snoc:
  "extends depth splitre prompt tr0 tr \<Longrightarrow> call_ok depth splitre prompt c \<Longrightarrow>
   extends depth splitre prompt tr0 (tr @ [c])"
  by (auto simp: extends_def)

lemma extends_trans_deeper:
  "extends depth (pat # rest) prompt tr0 tr1 \<Longrightarrow> extends (Suc depth) rest prompt tr1 tr2 \<Longrightarrow>
   extends depth (pat # rest) prompt tr0 tr2"
  using call_ok_deeper by (fastforce simp: extends_def)

lemma summarize_extends:
  "extends depth splitre prompt tr0 (trace_of (summarize llm model depth tx splitre prompt tr0))"
proof (induction splitre arbitrary: depth tx tr0)
  case Nil
  show ?case
    by (simp add: summarize.simps Let_def extends_def split: option.splits)
next
  case (Cons pat rest)
  let ?S = "Summarize depth tx (pat # rest) prompt"
  let ?P = "extends depth (pat # rest) prompt tr0"
  have S: "?P (tr0 @ [?S])"
    by (simp add: extends_def)
  show ?case
  proof (cases "max_token_count model")
    case None
    then show ?thesis using S by (simp add: summarize.simps)
  next
    case (Some budget)
    show ?thesis
    proof (cases "get_num_tokens llm (prompt @ tx) \<le> budget")
      case True
      then show ?thesis using Some extends_snoc [OF S, of "Ask (prompt @ tx)"]
        by (simp add: summarize.simps)
    next
      case False
      obtain part0 parts where parts: "split_parts pat tx = part0 # parts"
        using split_parts_not_Nil [of pat tx] by (cases "split_parts pat tx") auto
      let ?flush = "\<lambda>chunk (summaries, tr1).
          let text1 = concat chunk
          in if get_num_tokens llm text1 > budget
             then (case summarize llm model (Suc depth) text1 rest prompt tr1 of
                     Inl e \<Rightarrow> Inl e
                   | Inr (sub, tr2) \<Rightarrow> Inr (summaries @ sub, tr2))
             else Inr (summaries @ [ask llm (prompt @ text1)], tr1 @ [Ask (prompt @ text1)])"
      have step: "case ?flush chunk st of Inl e \<Rightarrow> ?P (snd e) | Inr st' \<Rightarrow> ?P (snd st')"
        if "?P (snd st)" for chunk st
      proof -
        obtain summaries tr1 where st: "st = (summaries, tr1)" by (cases st)
        have "?P (trace_of (summarize llm model (Suc depth) (concat chunk) rest prompt tr1))"
          using extends_trans_deeper [OF _ Cons.IH] that st by simp
        moreover have "?P (tr1 @ [Ask (prompt @ concat chunk)])"
          using extends_snoc that st by simp
        ultimately show ?thesis
          using st by (auto simp: Let_def split: sum.splits)
      qed
      have "case chunk_loop ?flush (get_num_tokens llm) budget parts [part0]
                   (get_num_tokens llm part0) ([], tr0 @ [?S]) of
              Inl e \<Rightarrow> ?P (snd e) | Inr (c, t, st') \<Rightarrow> ?P (snd st')"
        by (rule chunk_loop_inv [where I = "\<lambda>st. ?P (snd st)"]) (use S step in auto)
      then show ?thesis
        using Some False parts
        by (auto simp: summarize.simps split: sum.splits)
    qed
  qed
qed

section \<open>Evaluating the split on concrete texts\<close>

lemma char_llm_sel [simp]:
  "ask (char_llm a) = a" "get_num_tokens (char_llm a) s = int (length s)"
  by (simp_all add: char_llm_def)

lemma length_prompt_default [simp]: "length prompt_default = 69"
  by (simp add: prompt_default_def)

lemma length_prompt_compress [simp]: "length prompt_compress = 69"
  by (simp add: prompt_compress_def)

lemma budget_gpt35 [simp]: "max_token_count ''gpt-3.5-turbo'' = Some 4097"
  by (simp add: max_token_count_cases)

lemma split_diff_no_nl: "nl \<notin> set s \<Longrightarrow> split_diff False acc s = [acc @ s]"
  by (induction s arbitrary: acc) auto

lemma split_diff_line:
  "nl \<notin> set s \<Longrightarrow> split_diff False acc (s @ nl # r) = split_diff True (acc @ s @ [nl]) r"
  by (induction s arbitrary: acc) auto

lemma split_diff_hdr:
  "split_diff True acc (''diff '' @ r) = acc # ''diff '' # split_diff False [] r"
  by simp

lemma re_match_DiffHdr_hd: "s = [] \<or> hd s \<noteq> CHR ''d'' \<Longrightarrow> \<not> re_match DiffHdr s"
  by (cases s) auto

lemma split_parts_DiffHdr_plain:
  assumes "nl \<notin> set s" "s = [] \<or> hd s \<noteq> CHR ''d''"
  shows "split_parts DiffHdr s = [s]"
proof (cases s)
  case Nil
  then show ?thesis by (simp add: split_parts_def)
next
  case (Cons c cs)
  with assms have "c \<noteq> CHR ''d''" "c \<noteq> nl" "nl \<notin> set cs"
    by auto
  then show ?thesis
    using Cons by (simp add: split_parts_def split_diff_no_nl)
qed

lemma split_parts_DiffHdr_two:
  assumes "nl \<notin> set A" "nl \<notin> set B" "hd (A @ [nl]) \<noteq> CHR ''d''" "B = [] \<or> hd B \<noteq> CHR ''d''"
  shows "split_parts DiffHdr (''diff '' @ A @ [nl] @ ''diff '' @ B) =
           [[], ''diff '' @ A @ [nl], ''diff '' @ B]"
proof -
  have "re_split DiffHdr (''diff '' @ A @ [nl] @ ''diff '' @ B) =
          [[], ''diff '', A @ [nl], ''diff '', B]"
    using assms(1,2) split_diff_line [of A "[]" "''diff '' @ B"] split_diff_hdr [of "A @ [nl]" B]
    by (simp add: split_diff_no_nl)
  moreover have "\<not> re_match DiffHdr (A @ [nl])" "\<not> re_match DiffHdr B"
    using assms(3,4) by (simp_all only: re_match_DiffHdr_hd append_is_Nil_conv not_Cons_self2 simp_thms)
  moreover have "re_match DiffHdr ''diff ''"
    by simp
  ultimately show ?thesis
    by (simp add: split_parts_def)
qed

lemma split_parts_two_files:
  "split_parts DiffHdr (two_files n m) = [[], file_a n, file_b m]"
  unfolding two_files_def file_a_def file_b_def
  by (rule split_parts_DiffHdr_two) (auto simp: nl_def hd_append)

lemma split_blank_no_nl:
  "nl \<notin> set s \<Longrightarrow> split_blank False acc (s @ r) = split_blank False (acc @ s) r"
  by (induction s arbitrary: acc) auto

lemma split_parts_BlankLine_line:
  assumes "nl \<notin> set s" "s \<noteq> []"
  shows "split_parts BlankLine (s @ [nl]) = [s @ [nl], []]"
proof -
  obtain c cs where s: "s = c # cs"
    using assms(2) by (cases s) auto
  with assms(1) have "split_blank True [] (s @ [nl]) = split_blank False ([c] @ cs) [nl]"
    using split_blank_no_nl [of cs "[c]" "[nl]"] by auto
  then have "re_split BlankLine (s @ [nl]) = [s @ [nl], []]"
    using s assms(1) by auto
  then show ?thesis
    by (simp add: split_parts_def)
qed

lemma summarize_two_parts:
  assumes "max_token_count model = Some budget"
    and "budget < get_num_tokens llm (prompt @ tx)"
    and "split_parts pat tx = [p0, p1, p2]"
    and "get_num_tokens llm p0 + get_num_tokens llm p1 < budget"
    and "budget \<le> get_num_tokens llm p0 + get_num_tokens llm p1 + get_num_tokens llm p2"
    and "get_num_tokens llm (p0 @ p1) \<le> budget"
  shows "summarize llm model depth tx (pat # rest) prompt tr =
           Inr ([ask llm (prompt @ p0 @ p1)],
                tr @ [Summarize depth tx (pat # rest) prompt, Ask (prompt @ p0 @ p1)])"
  using assms by (simp add: summarize.simps Let_def)

lemma summarize_nested_raise:
  assumes "max_token_count model = Some budget"
    and "budget < get_num_tokens llm (prompt @ outer)"
    and "split_parts pat outer = part0 # part1 # parts"
    and "budget \<le> get_num_tokens llm part0 + get_num_tokens llm part1"
    and "budget < get_num_tokens llm part0"
    and "budget < get_num_tokens llm (prompt @ part0)"
  shows "summarize llm model depth outer [pat] prompt tr =
           Inl (IndexError, tr @ [Summarize depth outer [pat] prompt,
                                  Summarize (Suc depth) part0 [] prompt])"
  using assms summarize_exhausted [OF assms(1,6)]
  by (simp add: summarize.simps [of _ _ _ outer] Let_def)

lemma chunk_loop_record:
  "\<exists>c t closed'.
     chunk_loop record_chunk tok budget parts chunk (sum_list (map tok chunk)) closed =
       Inr (c, t, closed') \<and>
     closed' @ [c] = closed @ spec_chunks tok budget chunk parts"
proof (induction parts arbitrary: chunk closed)
  case Nil
  show ?case by simp
next
  case (Cons part parts)
  show ?case
  proof (cases "sum_list (map tok chunk) + tok part < budget")
    case True
    with Cons [of "chunk @ [part]" closed] show ?thesis by simp
  next
    case False
    with Cons [of "[part]" "closed @ [chunk]"] show ?thesis
      by (simp add: record_chunk_def)
  qed
qed

lemma concat_spec_chunks: "concat (spec_chunks tok budget current parts) = current @ parts"
  by (induction parts arbitrary: current) auto

lemma split_parts_long_line: "split_parts DiffHdr long_line = [long_line]"
  by (rule split_parts_DiffHdr_plain) (simp_all add: long_line_def nl_def)

lemma split_parts_long_line_nl:
  "split_parts BlankLine (long_line @ [nl]) = [long_line @ [nl], []]"
  by (rule split_parts_BlankLine_line) (simp_all add: long_line_def nl_def)

lemma length_file_a [simp]: "length (file_a n) = n + 6"
  by (simp add: file_a_def)

lemma length_file_b [simp]: "length (file_b n) = n + 5"
  by (simp add: file_b_def)

lemma length_two_files [simp]: "length (two_files n m) = n + m + 11"
  by (simp add: two_files_def)

lemma summarize_two_files_len:
  assumes "4097 < int (length prompt) + int (n + m + 11)" "int (n + 6) < 4097"
    "4097 \<le> int (n + 6) + int (m + 5)"
  shows "summarize (char_llm answer) ''gpt-3.5-turbo'' depth (two_files n m) (DiffHdr # rest)
           prompt tr =
         Inr ([answer (prompt @ file_a n)],
              tr @ [Summarize depth (two_files n m) (DiffHdr # rest) prompt,
                    Ask (prompt @ file_a n)])"
  using summarize_two_parts [OF budget_gpt35 _ split_parts_two_files, of "char_llm answer"
      prompt n m depth rest tr] assms
  by simp

lemma length_prompt_cli [simp]: "length prompt_cli = 194"
  by (simp add: prompt_cli_def)

section \<open>Traces of the driver\<close>





section \<open>Re-joining the parts\<close>

lemma concat_combine: "concat (combine pat combined parts) = concat combined @ concat parts"
proof (induction parts arbitrary: combined)
  case Nil
  show ?case by simp
next
  case (Cons part parts)
  show ?case
  proof (cases "re_match pat part \<or> combined = []")
    case True
    then show ?thesis using Cons [of "combined @ [part]"] by simp
  next
    case False
    then have "concat (butlast combined) @ last combined = concat combined"
      by (metis append_butlast_last_id concat.simps(1) concat.simps(2) concat_append self_append_conv)
    then show ?thesis
      using False Cons [of "butlast combined @ [last combined @ part]"] by simp
  qed
qed

lemma concat_split_diff: "concat (split_diff bol acc s) = acc @ s"
proof (induction bol acc s rule: split_diff.induct)
  case (1 bol acc)
  show ?case by simp
next
  case (2 bol acc c cs)
  show ?case
  proof (cases "bol \<and> take 5 (c # cs) = ''diff ''")
    case True
    then have "''diff '' @ drop 5 (c # cs) = c # cs"
      by (metis append_take_drop_id)
    with True 2 show ?thesis by simp
  next
    case False
    with 2 show ?thesis by auto
  qed
qed

lemma concat_split_blank: "concat (split_blank bol acc s) = acc @ s"
  by (induction s arbitrary: bol acc) auto

section \<open>The compression loop\<close>

text \<open>
  \<^verbatim>\<open>"\n\n".join\<close> puts two newlines in front of every element but the first.
\<close>

lemma join_blank_lines:
  "join sep (x # r) = x @ concat (map ((@) [CHR 0x0A, CHR 0x0A]) r)"
  by (induction r arbitrary: x) (simp_all add: sep_def nl_def)

lemma count_layers:
  "count_list (fold (\<lambda>s r. s @ [h] @ r) layers r0) h =
     length layers + count_list r0 h + count_list (concat layers) h"
  by (induction layers arbitrary: r0) simp_all

lemma compress_loop_passes:
  assumes "max_token_count model = Some budget"
  shows "spec_passes llm model prompt budget (s, t) later \<Longrightarrow>
         compress_loop (Suc (length later + extra)) llm model prompt result (join sep s) t =
           Some (Inr ((fold (\<lambda>s r. s @ [more_detail] @ r) (map fst later) result,
                       join sep (fst (last ((s, t) # later)))),
                      snd (last ((s, t) # later))))"
proof (induction later arbitrary: s t result)
  case Nil
  then show ?case using assms by simp
next
  case (Cons a later)
  obtain s1 t1 where a: "a = (s1, t1)" by (cases a)
  from Cons.prems a have p: "budget < get_num_tokens llm (prompt @ join sep s)"
    "summarize llm model 0 (join sep s) splitre_default prompt_compress t = Inr (s1, t1)"
    "spec_passes llm model prompt budget (s1, t1) later"
    by simp_all
  from Cons.IH [OF p(3), of "s1 @ [more_detail] @ result"] p(1,2) assms a
  show ?case by simp
qed

lemma compress_loop_short:
  assumes "max_token_count model = Some budget"
  shows "spec_passes llm model prompt budget (s, t) later \<Longrightarrow> fuel \<le> length later \<Longrightarrow>
         compress_loop fuel llm model prompt result (join sep s) t = None"
proof (induction later arbitrary: s t result fuel)
  case Nil
  then show ?case by simp
next
  case (Cons a later)
  obtain s1 t1 where a: "a = (s1, t1)" by (cases a)
  from Cons.prems a have p: "budget < get_num_tokens llm (prompt @ join sep s)"
    "summarize llm model 0 (join sep s) splitre_default prompt_compress t = Inr (s1, t1)"
    "spec_passes llm model prompt budget (s1, t1) later"
    by simp_all
  show ?case
  proof (cases fuel)
    case 0
    then show ?thesis by simp
  next
    case (Suc n)
    with Cons.prems have "n \<le> length later" by simp
    from Cons.IH [OF p(3) this, of "s1 @ [more_detail] @ result"] p(1,2) assms Suc
    show ?thesis by simp
  qed
qed

lemma compress_loop_passes_conv:
  assumes "max_token_count model = Some budget"
  shows "compress_loop fuel llm model prompt result (join sep s) t = Some (Inr v) \<Longrightarrow>
         \<exists>later. spec_passes llm model prompt budget (s, t) later \<and> length later < fuel"
proof (induction fuel arbitrary: s t result)
  case 0
  then show ?case by simp
next
  case (Suc fuel)
  show ?case
  proof (cases "get_num_tokens llm (prompt @ join sep s) \<le> budget")
    case True
    then show ?thesis by (intro exI [of _ "[]"]) simp
  next
    case False
    show ?thesis
    proof (cases "summarize llm model 0 (join sep s) splitre_default prompt_compress t")
      case (Inl e)
      with Suc.prems assms False show ?thesis by simp
    next
      case (Inr w)
      obtain s1 t1 where w: "w = (s1, t1)" by (cases w)
      with Inr Suc.prems assms False
      have "compress_loop fuel llm model prompt (s1 @ [more_detail] @ result) (join sep s1) t1 =
              Some (Inr v)"
        by simp
      from Suc.IH [OF this] obtain later where
        "spec_passes llm model prompt budget (s1, t1) later" "length later < fuel"
        by blast
      with False Inr w show ?thesis
        by (intro exI [of _ "(s1, t1) # later"]) simp
    qed
  qed
qed

lemma commit_message_over:
  assumes "max_token_count model = Some budget"
    and "budget < get_num_tokens llm (prompt @ diff)"
    and "summarize llm model 0 diff splitre_default prompt_default [] = Inr (s0, t0)"
  shows "commit_message fuel llm model diff prompt =
           (case compress_loop fuel llm model prompt (more_detail # s0) (join sep s0) t0 of
              None \<Rightarrow> None
            | Some (Inl e) \<Rightarrow> Some (Inl e)
            | Some (Inr ((result, overall_summary), tr1)) \<Rightarrow>
                Some (Inr (join sep (ask llm (prompt @ overall_summary) # result),
                           tr1 @ [Ask (prompt @ overall_summary)])))"
  using assms by (simp add: commit_message_def)

lemma commit_message_passes:
  assumes m: "max_token_count model = Some budget"
    and over: "budget < get_num_tokens llm (prompt @ diff)"
    and first: "summarize llm model 0 diff splitre_default prompt_default [] = Inr (s0, t0)"
    and passes: "spec_passes llm model prompt budget (s0, t0) later"
  shows "commit_message (Suc (length later + extra)) llm model diff prompt =
           Some (Inr (ask llm (prompt @ join sep (fst (last ((s0, t0) # later)))) @
                      concat (map ((@) [CHR 0x0A, CHR 0x0A])
                        (fold (\<lambda>s r. s @ [''## More Detail''] @ r) (map fst later)
                           (''## More Detail'' # s0))),
                      snd (last ((s0, t0) # later)) @
                      [Ask (prompt @ join sep (fst (last ((s0, t0) # later))))]))"
proof -
  have "commit_message (Suc (length later + extra)) llm model diff prompt =
          Some (Inr (join sep (ask llm (prompt @ join sep (fst (last ((s0, t0) # later)))) #
                       fold (\<lambda>s r. s @ [more_detail] @ r) (map fst later) (more_detail # s0)),
                     snd (last ((s0, t0) # later)) @
                     [Ask (prompt @ join sep (fst (last ((s0, t0) # later))))]))"
    unfolding commit_message_over [OF m over first]
      compress_loop_passes [OF m passes, of extra "more_detail # s0"]
    by simp
  then show ?thesis
    unfolding join_blank_lines by (simp add: more_detail_def)
qed

lemma commit_message_short:
  assumes m: "max_token_count model = Some budget"
    and over: "budget < get_num_tokens llm (prompt @ diff)"
    and first: "summarize llm model 0 diff splitre_default prompt_default [] = Inr (s0, t0)"
    and passes: "spec_passes llm model prompt budget (s0, t0) later"
    and short: "fuel \<le> length later"
  shows "commit_message fuel llm model diff prompt = None"
  unfolding commit_message_over [OF m over first]
    compress_loop_short [OF m passes short, of "more_detail # s0"]
  by simp

lemma commit_message_passes_conv:
  assumes m: "max_token_count model = Some budget"
    and over: "budget < get_num_tokens llm (prompt @ diff)"
    and run: "commit_message fuel llm model diff prompt = Some (Inr (msg, tr))"
  shows "\<exists>s0 t0 later.
           summarize llm model 0 diff splitre_default prompt_default [] = Inr (s0, t0) \<and>
           spec_passes llm model prompt budget (s0, t0) later \<and> length later < fuel"
proof (cases "summarize llm model 0 diff splitre_default prompt_default []")
  case (Inl e)
  with run m over show ?thesis by (simp add: commit_message_def)
next
  case (Inr v)
  obtain s0 t0 where v: "v = (s0, t0)" by (cases v)
  with Inr have first: "summarize llm model 0 diff splitre_default prompt_default [] = Inr (s0, t0)"
    by simp
  from run obtain w where
    "compress_loop fuel llm model prompt (more_detail # s0) (join sep s0) t0 = Some (Inr w)"
    unfolding commit_message_over [OF m over first]
    by (auto split: option.splits sum.splits)
  from compress_loop_passes_conv [OF m this] first show ?thesis by blast
qed

section \<open>The newline rung and the default ladder\<close>

text \<open>
  On the pattern \<^verbatim>\<open>\n\<close> no segment starts with a newline, so the loop of lines 68 to
  73 appends every segment to the first one: the parts are always the one part that is
  the text without its newlines. A call on the default ladder therefore never reaches an
  empty ladder, and with a registered model it always returns.
\<close>

lemma concat_split_nl: "concat (split_nl acc s) = acc @ filter (\<lambda>c. c \<noteq> nl) s"
  by (induction s arbitrary: acc) auto

lemma split_nl_no_nl: "nl \<notin> set acc \<Longrightarrow> \<forall>p\<in>set (split_nl acc s). nl \<notin> set p"
proof (induction s arbitrary: acc)
  case Nil
  then show ?case by simp
next
  case (Cons c s)
  show ?case
  proof (cases "c = nl")
    case True
    with Cons.IH [of "[]"] Cons.prems show ?thesis by simp
  next
    case False
    with Cons.prems have "nl \<notin> set (acc @ [c])" by auto
    from Cons.IH [OF this] False show ?thesis by simp
  qed
qed

lemma re_match_Newline_nl: "re_match Newline p \<Longrightarrow> nl \<in> set p"
  by (cases p) auto

lemma combine_no_match:
  "\<forall>p\<in>set parts. \<not> re_match pat p \<Longrightarrow> combined \<noteq> [] \<Longrightarrow>
   combine pat combined parts = butlast combined @ [last combined @ concat parts]"
  by (induction parts arbitrary: combined) auto

lemma split_parts_Newline: "split_parts Newline tx = [filter (\<lambda>c. c \<noteq> nl) tx]"
proof -
  obtain p0 ps where ps: "split_nl [] tx = p0 # ps"
    using split_nl_not_Nil [of "[]" tx] by (cases "split_nl [] tx") auto
  have "\<forall>p\<in>set ps. \<not> re_match Newline p"
    using split_nl_no_nl [of "[]" tx] re_match_Newline_nl ps by fastforce
  then have "combine Newline [p0] ps = [p0 @ concat ps]"
    using combine_no_match [of ps Newline "[p0]"] by simp
  moreover have "p0 @ concat ps = filter (\<lambda>c. c \<noteq> nl) tx"
    using concat_split_nl [of "[]" tx] ps by simp
  ultimately show ?thesis
    using ps by (simp add: split_parts_def)
qed

lemma summarize_returns_step:
  assumes m: "max_token_count model = Some budget"
    and rec: "\<And>d t tr. \<exists>v. summarize llm model d t rest prompt tr = Inr v"
  shows "\<exists>v. summarize llm model depth tx (pat # rest) prompt tr0 = Inr v"
proof (cases "get_num_tokens llm (prompt @ tx) \<le> budget")
  case True
  then show ?thesis using m by (simp add: summarize_base)
next
  case False
  obtain part0 parts where parts: "split_parts pat tx = part0 # parts"
    using split_parts_not_Nil [of pat tx] by (cases "split_parts pat tx") auto
  let ?flush = "\<lambda>chunk (summaries, tr1).
      let text1 = concat chunk
      in if get_num_tokens llm text1 > budget
         then (case summarize llm model (Suc depth) text1 rest prompt tr1 of
                 Inl e \<Rightarrow> Inl e
               | Inr (sub, tr2) \<Rightarrow> Inr (summaries @ sub, tr2))
         else Inr (summaries @ [ask llm (prompt @ text1)], tr1 @ [Ask (prompt @ text1)])"
  have step: "case ?flush chunk st of Inl e \<Rightarrow> False | Inr st' \<Rightarrow> True" for chunk st
  proof -
    obtain summaries tr1 where st: "st = (summaries, tr1)" by (cases st)
    obtain v where "summarize llm model (Suc depth) (concat chunk) rest prompt tr1 = Inr v"
      using rec by blast
    then show ?thesis
      using st by (auto simp: Let_def split: sum.splits prod.splits)
  qed
  have "case chunk_loop ?flush (get_num_tokens llm) budget parts [part0]
               (get_num_tokens llm part0)
               ([], tr0 @ [Summarize depth tx (pat # rest) prompt]) of
          Inl e \<Rightarrow> False | Inr (c, t, st') \<Rightarrow> True"
    by (rule chunk_loop_inv [where I = "\<lambda>st. True"]) (use step in auto)
  then show ?thesis
    using m False parts by (auto simp: summarize.simps split: sum.splits)
qed

lemma summarize_Newline_returns:
  assumes "max_token_count model = Some budget"
  shows "\<exists>v. summarize llm model depth tx [Newline] prompt tr = Inr v"
proof (cases "get_num_tokens llm (prompt @ tx) \<le> budget")
  case True
  then show ?thesis using assms by (simp add: summarize_base)
next
  case False
  then show ?thesis
    using summarize_single [OF assms _ split_parts_Newline, of llm prompt tx depth "[]" tr]
    by simp
qed

lemma summarize_default_returns:
  assumes "max_token_count model = Some budget"
  shows "\<exists>v. summarize llm model depth tx splitre_default prompt tr = Inr v"
  unfolding splitre_default_def
  by (intro summarize_returns_step [OF assms] summarize_Newline_returns [OF assms])





lemma compress_loop_never_raises:
  assumes "max_token_count model = Some budget"
  shows "compress_loop fuel llm model prompt result overall tr \<noteq> Some (Inl e)"
proof (induction fuel arbitrary: result overall tr)
  case 0
  show ?case by simp
next
  case (Suc fuel)
  obtain s t where "summarize llm model 0 overall splitre_default prompt_compress tr = Inr (s, t)"
    using summarize_default_returns [OF assms, of llm 0 overall prompt_compress tr] by auto
  with Suc assms show ?case by simp
qed

lemma commit_message_never_raises:
  assumes "max_token_count model = Some budget"
  shows "commit_message fuel llm model diff prompt \<noteq> Some (Inl e)"
proof -
  obtain s t where "summarize llm model 0 diff splitre_default prompt_default [] = Inr (s, t)"
    using summarize_default_returns [OF assms, of llm 0 diff prompt_default "[]"] by auto
  with assms compress_loop_never_raises [OF assms, of fuel llm prompt "more_detail # s"
      "join sep s" t e]
  show ?thesis
    by (auto simp: commit_message_def split: option.splits sum.splits)
qed

section \<open>The budget table (C4)\<close>

text \<open>
  C4. The lookup of a registered model name returns its limit: 8192 for
  \<^verbatim>\<open>gpt-4\<close>, 4097 for \<^verbatim>\<open>gpt-3.5-turbo\<close>. For any other name the lookup fails
  (Python's \<^verbatim>\<open>KeyError\<close>), and the failure surfaces at once: \<^verbatim>\<open>summarize\<close> and
  \<^verbatim>\<open>commit_message\<close> raise it at their first lookup, before any query is sent to the
  language model and without a second attempt (the trace holds no \<open>Ask\<close>).
\<close>

theorem budget_lookup:
  "budget_for ''gpt-4'' = Inr 8192 \<and>
   budget_for ''gpt-3.5-turbo'' = Inr 4097 \<and>
   (model \<noteq> ''gpt-4'' \<and> model \<noteq> ''gpt-3.5-turbo'' \<longrightarrow>
      budget_for model = Inl KeyError \<and>
      summarize llm model depth text splitre prompt tr =
        Inl (KeyError, tr @ [Summarize depth text splitre prompt]) \<and>
      commit_message fuel llm model diff prompt = Some (Inl (KeyError, [])))"
proof -
  have known: "budget_for ''gpt-4'' = Inr 8192" "budget_for ''gpt-3.5-turbo'' = Inr 4097"
    by (simp_all add: budget_for_def max_token_count_cases)
  have unknown: "max_token_count model = None"
    if "model \<noteq> ''gpt-4''" "model \<noteq> ''gpt-3.5-turbo''"
    using that by (simp add: max_token_count_cases)
  show ?thesis
    using known unknown
    by (auto simp: budget_for_def summarize_unknown_model commit_message_def)
qed

theorem budget_lookup_witness:
  "''gpt-5'' \<noteq> ''gpt-4'' \<and> ''gpt-5'' \<noteq> ''gpt-3.5-turbo'' \<and>
   budget_for ''gpt-5'' = Inl KeyError \<and>
   summarize (char_llm id) ''gpt-5'' 0 ''diff a'' splitre_default prompt_default [] =
     Inl (KeyError, [Summarize 0 ''diff a'' splitre_default prompt_default]) \<and>
   commit_message 0 (char_llm id) ''gpt-5'' ''diff a'' prompt_default = Some (Inl (KeyError, []))"
  using budget_lookup [of "''gpt-5''" "char_llm id" 0 "''diff a''" splitre_default
      prompt_default "[]" 0 "''diff a''"]
  by simp

section \<open>Chunk assembly (C6)\<close>

text \<open>
  C6. The chunks the loop forms are the greedy chunks of the specification: a part joins
  the current chunk while the token total of the chunk plus that part stays under the
  budget, and the chunk is closed, the part starting the next one, exactly when the total
  would reach or exceed the budget. For three parts of 5 tokens each and a budget of 12
  the chunks are the first two parts together, then the third.
\<close>

theorem greedy_chunk_assembly:
  "assemble tok budget (part0 # parts) = Inr (spec_chunks tok budget [part0] parts) \<and>
   (tok p0 = 5 \<and> tok p1 = 5 \<and> tok p2 = 5 \<longrightarrow>
      assemble tok 12 [p0, p1, p2] = Inr [[p0, p1], [p2]])"
proof -
  have eq: "assemble tok b (q # qs) = Inr (spec_chunks tok b [q] qs)" for b q qs
    using chunk_loop_record [of tok b qs "[q]" "[]"]
    by (auto simp: assemble_def)
  show ?thesis
    by (simp add: eq)
qed

theorem greedy_chunk_assembly_witness:
  "(\<lambda>s. 5) ''a'' = (5::int) \<and> (\<lambda>s. 5) ''b'' = (5::int) \<and> (\<lambda>s. 5) ''c'' = (5::int) \<and>
   assemble (\<lambda>s. 5) 12 [''a'', ''b'', ''c''] = Inr [[''a'', ''b''], [''c'']]"
  using greedy_chunk_assembly [of "\<lambda>s. 5" 12 "''a''" "[''b'', ''c'']" "''a''" "''b''" "''c''"]
  by simp

section \<open>A text that the pattern does not split (C10)\<close>

text \<open>
  C10. When prompt and text together exceed the budget and the first pattern of the
  ladder leaves the text in one part, \<^verbatim>\<open>summarize\<close> returns the empty list: the loop
  over \<^verbatim>\<open>parts[1:]\<close> has nothing to run on, nothing is asked of the language model
  (the trace holds the invocation only), nothing is raised, and the text is in no summary.
  The witness is such an input: a line of 5000 characters under the budget 4097.
\<close>

theorem summarize_single_part_empty:
  "max_token_count model = Some budget \<Longrightarrow> budget < get_num_tokens llm (prompt @ tx) \<Longrightarrow>
   split_parts pat tx = [part] \<Longrightarrow>
   summarize llm model depth tx (pat # rest) prompt tr =
     Inr ([], tr @ [Summarize depth tx (pat # rest) prompt])"
  by (rule summarize_single)

theorem summarize_single_part_empty_witness:
  "max_token_count ''gpt-3.5-turbo'' = Some 4097 \<and>
   4097 < get_num_tokens (char_llm id) (prompt_default @ long_line) \<and>
   split_parts DiffHdr long_line = [long_line] \<and>
   summarize (char_llm id) ''gpt-3.5-turbo'' 0 long_line (DiffHdr # [BlankLine, Newline])
       prompt_default [] =
     Inr ([], [Summarize 0 long_line (DiffHdr # [BlankLine, Newline]) prompt_default])"
proof -
  have b: "4097 < get_num_tokens (char_llm id) (prompt_default @ long_line)"
    by (simp add: long_line_def)
  show ?thesis
    using b split_parts_long_line
      summarize_single_part_empty [OF budget_gpt35 b split_parts_long_line,
        of 0 "[BlankLine, Newline]" "[]"]
    by simp
qed

section \<open>The exhausted ladder (C3)\<close>




section \<open>The recursion follows the ladder (C7)\<close>

text \<open>
  C7. Every invocation of \<^verbatim>\<open>summarize\<close> that a run makes, at whatever depth, has
  the ladder that is left after as many rungs as it is levels below the first call, never
  the full ladder again, and the caller's prompt; it is at most as many levels below as
  the ladder has rungs. So a ladder of length \<open>k\<close> bounds the recursion depth by \<open>k\<close>.
  This holds for runs that return and for runs that raise.
\<close>

theorem recursion_follows_ladder:
  "\<exists>new. trace_of (summarize llm model depth tx splitre prompt tr0) = tr0 @ new \<and>
         (\<forall>c\<in>set new. call_ok depth splitre prompt c)"
  using summarize_extends [of depth splitre prompt tr0 llm model tx]
  by (simp add: extends_def)

theorem recursion_follows_ladder_witness:
  "trace_of (summarize (char_llm id) ''gpt-3.5-turbo'' 0 (long_line @ [nl]) [BlankLine]
               prompt_default []) =
     [Summarize 0 (long_line @ [nl]) [BlankLine] prompt_default,
      Summarize 1 (long_line @ [nl]) [] prompt_default] \<and>
   call_ok 0 [BlankLine] prompt_default (Summarize 1 (long_line @ [nl]) [] prompt_default)"
proof -
  have ev: "summarize (char_llm id) ''gpt-3.5-turbo'' 0 (long_line @ [nl]) [BlankLine]
              prompt_default [] =
            Inl (IndexError, [] @ [Summarize 0 (long_line @ [nl]) [BlankLine] prompt_default,
                              Summarize (Suc 0) (long_line @ [nl]) [] prompt_default])"
    by (rule summarize_nested_raise [OF budget_gpt35 _ split_parts_long_line_nl])
      (simp_all add: long_line_def)
  obtain new where
    new: "trace_of (summarize (char_llm id) ''gpt-3.5-turbo'' 0 (long_line @ [nl]) [BlankLine]
                      prompt_default []) = [] @ new"
    and ok: "\<forall>c\<in>set new. call_ok 0 [BlankLine] prompt_default c"
    using recursion_follows_ladder [of "char_llm id" "''gpt-3.5-turbo''" 0 "long_line @ [nl]"
        "[BlankLine]" prompt_default "[]"]
    by blast
  from new ev have "new = [Summarize 0 (long_line @ [nl]) [BlankLine] prompt_default,
                           Summarize 1 (long_line @ [nl]) [] prompt_default]"
    by simp
  with ok new show ?thesis by simp
qed

section \<open>The last chunk (C1)\<close>

text \<open>
  C1. One summary per chunk, in order and with no chunk left out, is not what the code
  returns: the loop handles a chunk only when the next part closes it, and nothing handles
  the chunk that is open when the loop ends. For a diff of two files of 4000 characters each, with
  one token per character and the budget 4097, the parts form two chunks and the pass
  returns one summary, of the first file; the second file reaches no query.
\<close>

theorem last_chunk_not_summarized:
  "assemble (get_num_tokens (char_llm answer)) 4097 (split_parts DiffHdr (two_files 4000 4000)) =
     Inr [[[], file_a 4000], [file_b 4000]] \<and>
   summarize (char_llm answer) ''gpt-3.5-turbo'' 0 (two_files 4000 4000) splitre_default
       prompt_default [] =
     Inr ([answer (prompt_default @ file_a 4000)],
          [Summarize 0 (two_files 4000 4000) splitre_default prompt_default,
           Ask (prompt_default @ file_a 4000)])"
proof -
  have "assemble (get_num_tokens (char_llm answer)) 4097 [[], file_a 4000, file_b 4000] =
          Inr [[[], file_a 4000], [file_b 4000]]"
    by (simp add: assemble_def record_chunk_def)
  moreover have "summarize (char_llm answer) ''gpt-3.5-turbo'' 0 (two_files 4000 4000)
       (DiffHdr # [BlankLine, Newline]) prompt_default [] =
     Inr ([answer (prompt_default @ file_a 4000)],
          [] @ [Summarize 0 (two_files 4000 4000) (DiffHdr # [BlankLine, Newline]) prompt_default,
           Ask (prompt_default @ file_a 4000)])"
    by (rule summarize_two_files_len) simp_all
  ultimately show ?thesis
    by (simp add: split_parts_two_files splitre_default_def)
qed

section \<open>The budget test on a closed chunk (C8)\<close>

text \<open>
  C8. That no closed chunk is sent to the language model with prompt and chunk over the
  budget is not what the code does: line 83 counts the tokens of the chunk without the
  prompt. For a diff whose first file has 4086 tokens, the chunk passes the
  test (4086 is at most 4097) and is asked with the prompt in front, 4155 tokens.
\<close>

theorem chunk_asked_over_budget:
  "max_token_count ''gpt-3.5-turbo'' = Some 4097 \<and>
   summarize (char_llm answer) ''gpt-3.5-turbo'' 0 (two_files 4080 20) splitre_default
       prompt_default [] =
     Inr ([answer (prompt_default @ file_a 4080)],
          [Summarize 0 (two_files 4080 20) splitre_default prompt_default,
           Ask (prompt_default @ file_a 4080)]) \<and>
   get_num_tokens (char_llm answer) (file_a 4080) = 4086 \<and>
   get_num_tokens (char_llm answer) (prompt_default @ file_a 4080) = 4155"
proof -
  have "summarize (char_llm answer) ''gpt-3.5-turbo'' 0 (two_files 4080 20)
       (DiffHdr # [BlankLine, Newline]) prompt_default [] =
     Inr ([answer (prompt_default @ file_a 4080)],
          [] @ [Summarize 0 (two_files 4080 20) (DiffHdr # [BlankLine, Newline]) prompt_default,
           Ask (prompt_default @ file_a 4080)])"
    by (rule summarize_two_files_len) simp_all
  then show ?thesis
    by (simp add: splitre_default_def)
qed

section \<open>Under the budget (C5)\<close>



section \<open>Re-joining the parts of a split (C2)\<close>

text \<open>
  C2, for the patterns \<^verbatim>\<open>^(diff )\<close> and \<^verbatim>\<open>^$\<close>: concatenating the parts of a
  text in order gives the text back, whatever the text. Parts may be empty.
\<close>

theorem split_rejoin_lossless:
  "pat \<noteq> Newline \<Longrightarrow> concat (split_parts pat tx) = tx"
  by (cases pat) (simp_all add: split_parts_def concat_combine concat_split_diff concat_split_blank)

theorem split_rejoin_lossless_witness:
  "DiffHdr \<noteq> Newline \<and> split_parts DiffHdr ''diff a'' = [[], ''diff a''] \<and>
   concat (split_parts DiffHdr ''diff a'') = ''diff a''"
  using split_rejoin_lossless [of DiffHdr "''diff a''"]
  by (simp add: split_parts_def)

text \<open>
  C2 does not hold for every pattern, nor without empty parts. On the pattern \<^verbatim>\<open>\n\<close> the parts of \<^verbatim>\<open>"a\nb"\<close> are the one
  part \<^verbatim>\<open>"ab"\<close>, which are also the parts of \<^verbatim>\<open>"ab"\<close>: the newline is lost, and no
  way of joining gives both texts back. On the pattern \<^verbatim>\<open>^(diff )\<close> the first part
  of a text that starts with \<^verbatim>\<open>"diff "\<close> is empty.
\<close>

theorem split_rejoin_counterexample:
  "split_parts Newline (''a'' @ [nl] @ ''b'') = [''ab''] \<and>
   split_parts Newline ''ab'' = [''ab''] \<and>
   concat (split_parts Newline (''a'' @ [nl] @ ''b'')) \<noteq> ''a'' @ [nl] @ ''b'' \<and>
   split_parts DiffHdr ''diff a'' = [[], ''diff a'']"
  by (simp add: split_parts_def nl_def)

section \<open>The layered document (C9)\<close>

text \<open>
  C9. When the diff with the prompt is over the budget, \<^verbatim>\<open>commit_message\<close> makes
  exactly the passes of the specification and no more: a compression pass is made only
  because the newest layer did not fit, and the loop stops at the first layer that fits
  (with no compression pass at all when the first layer fits; with less fuel than the
  passes need, the model has no result). The message is the answer to the final query, made
  on the newest layer, followed by the sections of the document, each after two newlines:
  every compression pass put its summaries and a heading \<^verbatim>\<open>## More Detail\<close> in front
  of what was there, and the first pass is under a heading of its own. So the document
  holds one heading for each summarization pass, besides any that a summary itself is: a
  run of three passes yields three headings. Conversely every message that is returned
  comes from such a sequence of passes.
\<close>

theorem layered_document:
  assumes m: "max_token_count model = Some budget"
  shows "join sep (x # r) = x @ concat (map ((@) [CHR 0x0A, CHR 0x0A]) r) \<and>
    (budget < get_num_tokens llm (prompt @ diff) \<and>
     summarize llm model 0 diff splitre_default prompt_default [] = Inr (s0, t0) \<and>
     spec_passes llm model prompt budget (s0, t0) later \<longrightarrow>
       commit_message (Suc (length later + extra)) llm model diff prompt =
         Some (Inr (ask llm (prompt @ join sep (fst (last ((s0, t0) # later)))) @
                    concat (map ((@) [CHR 0x0A, CHR 0x0A])
                      (fold (\<lambda>s r. s @ [''## More Detail''] @ r) (map fst later)
                         (''## More Detail'' # s0))),
                    snd (last ((s0, t0) # later)) @
                    [Ask (prompt @ join sep (fst (last ((s0, t0) # later))))])) \<and>
       (\<forall>fuel\<le>length later. commit_message fuel llm model diff prompt = None) \<and>
       count_list (fold (\<lambda>s r. s @ [''## More Detail''] @ r) (map fst later)
                     (''## More Detail'' # s0)) ''## More Detail'' =
         Suc (length later) + count_list (concat (s0 # map fst later)) ''## More Detail'') \<and>
    (budget < get_num_tokens llm (prompt @ diff) \<and>
     commit_message fuel1 llm model diff prompt = Some (Inr (msg, tr)) \<longrightarrow>
       (\<exists>a0 u0 layers.
          summarize llm model 0 diff splitre_default prompt_default [] = Inr (a0, u0) \<and>
          spec_passes llm model prompt budget (a0, u0) layers \<and> length layers < fuel1)) \<and>
    (budget < get_num_tokens llm (prompt @ diff) \<and>
     summarize llm model 0 diff splitre_default prompt_default [] = Inr (s0, t0) \<and>
     budget < get_num_tokens llm (prompt @ join sep s0) \<and>
     summarize llm model 0 (join sep s0) splitre_default prompt_compress t0 = Inr (s1, t1) \<and>
     budget < get_num_tokens llm (prompt @ join sep s1) \<and>
     summarize llm model 0 (join sep s1) splitre_default prompt_compress t1 = Inr (s2, t2) \<and>
     get_num_tokens llm (prompt @ join sep s2) \<le> budget \<longrightarrow>
       commit_message (Suc (Suc (Suc extra))) llm model diff prompt =
         Some (Inr (ask llm (prompt @ join sep s2) @
                    concat (map ((@) [CHR 0x0A, CHR 0x0A])
                      (s2 @ [''## More Detail''] @ s1 @
                       [''## More Detail'', ''## More Detail''] @ s0)),
                    t2 @ [Ask (prompt @ join sep s2)]))) \<and>
    (budget < get_num_tokens llm (prompt @ dz) \<and>
     summarize llm model 0 dz splitre_default prompt_default [] = Inr (z0, v0) \<and>
     get_num_tokens llm (prompt @ join sep z0) \<le> budget \<longrightarrow>
       commit_message (Suc extra) llm model dz prompt =
         Some (Inr (ask llm (prompt @ join sep z0) @
                    concat (map ((@) [CHR 0x0A, CHR 0x0A]) (''## More Detail'' # z0)),
                    v0 @ [Ask (prompt @ join sep z0)])))"
proof (intro conjI impI)
  show "join sep (x # r) = x @ concat (map ((@) [CHR 0x0A, CHR 0x0A]) r)"
    by (rule join_blank_lines)
next
  assume h: "budget < get_num_tokens llm (prompt @ diff) \<and>
     summarize llm model 0 diff splitre_default prompt_default [] = Inr (s0, t0) \<and>
     spec_passes llm model prompt budget (s0, t0) later"
  then have over: "budget < get_num_tokens llm (prompt @ diff)"
    and first: "summarize llm model 0 diff splitre_default prompt_default [] = Inr (s0, t0)"
    and passes: "spec_passes llm model prompt budget (s0, t0) later"
    by simp_all
  show "commit_message (Suc (length later + extra)) llm model diff prompt =
         Some (Inr (ask llm (prompt @ join sep (fst (last ((s0, t0) # later)))) @
                    concat (map ((@) [CHR 0x0A, CHR 0x0A])
                      (fold (\<lambda>s r. s @ [''## More Detail''] @ r) (map fst later)
                         (''## More Detail'' # s0))),
                    snd (last ((s0, t0) # later)) @
                    [Ask (prompt @ join sep (fst (last ((s0, t0) # later))))]))"
    by (rule commit_message_passes [OF m over first passes])
  show "\<forall>fuel\<le>length later. commit_message fuel llm model diff prompt = None"
    using commit_message_short [OF m over first passes] by blast
  show "count_list (fold (\<lambda>s r. s @ [''## More Detail''] @ r) (map fst later)
                     (''## More Detail'' # s0)) ''## More Detail'' =
         Suc (length later) + count_list (concat (s0 # map fst later)) ''## More Detail''"
    using count_layers [of "''## More Detail''" "map fst later" "''## More Detail'' # s0"]
    by simp
next
  assume "budget < get_num_tokens llm (prompt @ diff) \<and>
     commit_message fuel1 llm model diff prompt = Some (Inr (msg, tr))"
  then show "\<exists>a0 u0 layers.
          summarize llm model 0 diff splitre_default prompt_default [] = Inr (a0, u0) \<and>
          spec_passes llm model prompt budget (a0, u0) layers \<and> length layers < fuel1"
    using commit_message_passes_conv [OF m] by blast
next
  assume h: "budget < get_num_tokens llm (prompt @ diff) \<and>
     summarize llm model 0 diff splitre_default prompt_default [] = Inr (s0, t0) \<and>
     budget < get_num_tokens llm (prompt @ join sep s0) \<and>
     summarize llm model 0 (join sep s0) splitre_default prompt_compress t0 = Inr (s1, t1) \<and>
     budget < get_num_tokens llm (prompt @ join sep s1) \<and>
     summarize llm model 0 (join sep s1) splitre_default prompt_compress t1 = Inr (s2, t2) \<and>
     get_num_tokens llm (prompt @ join sep s2) \<le> budget"
  then have "spec_passes llm model prompt budget (s0, t0) [(s1, t1), (s2, t2)]"
    by simp
  from commit_message_passes [OF m _ _ this, of diff extra] h
  show "commit_message (Suc (Suc (Suc extra))) llm model diff prompt =
         Some (Inr (ask llm (prompt @ join sep s2) @
                    concat (map ((@) [CHR 0x0A, CHR 0x0A])
                      (s2 @ [''## More Detail''] @ s1 @
                       [''## More Detail'', ''## More Detail''] @ s0)),
                    t2 @ [Ask (prompt @ join sep s2)]))"
    by simp
next
  assume h: "budget < get_num_tokens llm (prompt @ dz) \<and>
     summarize llm model 0 dz splitre_default prompt_default [] = Inr (z0, v0) \<and>
     get_num_tokens llm (prompt @ join sep z0) \<le> budget"
  then have "spec_passes llm model prompt budget (z0, v0) []"
    by simp
  from commit_message_passes [OF m _ _ this, of dz extra] h
  show "commit_message (Suc extra) llm model dz prompt =
         Some (Inr (ask llm (prompt @ join sep z0) @
                    concat (map ((@) [CHR 0x0A, CHR 0x0A]) (''## More Detail'' # z0)),
                    v0 @ [Ask (prompt @ join sep z0)]))"
    by simp
qed

theorem layered_document_witness:
  "max_token_count ''gpt-3.5-turbo'' = Some 4097 \<and>
   4097 < get_num_tokens (char_llm demo_answer) (prompt_cli @ two_files 4000 4000) \<and>
   spec_passes (char_llm demo_answer) ''gpt-3.5-turbo'' prompt_cli 4097
     ([two_files 3000 4000],
      [Summarize 0 (two_files 4000 4000) splitre_default prompt_default,
       Ask (prompt_default @ file_a 4000)])
     [([two_files 2000 4000],
       [Summarize 0 (two_files 4000 4000) splitre_default prompt_default,
        Ask (prompt_default @ file_a 4000),
        Summarize 0 (two_files 3000 4000) splitre_default prompt_compress,
        Ask (prompt_compress @ file_a 3000)]),
      ([''- summary''],
       [Summarize 0 (two_files 4000 4000) splitre_default prompt_default,
        Ask (prompt_default @ file_a 4000),
        Summarize 0 (two_files 3000 4000) splitre_default prompt_compress,
        Ask (prompt_compress @ file_a 3000),
        Summarize 0 (two_files 2000 4000) splitre_default prompt_compress,
        Ask (prompt_compress @ file_a 2000)])] \<and>
   commit_message 3 (char_llm demo_answer) ''gpt-3.5-turbo'' (two_files 4000 4000) prompt_cli =
     Some (Inr (''- summary'' @
                concat (map ((@) [CHR 0x0A, CHR 0x0A])
                  [''- summary'', ''## More Detail'', two_files 2000 4000,
                   ''## More Detail'', ''## More Detail'', two_files 3000 4000]),
                [Summarize 0 (two_files 4000 4000) splitre_default prompt_default,
                 Ask (prompt_default @ file_a 4000),
                 Summarize 0 (two_files 3000 4000) splitre_default prompt_compress,
                 Ask (prompt_compress @ file_a 3000),
                 Summarize 0 (two_files 2000 4000) splitre_default prompt_compress,
                 Ask (prompt_compress @ file_a 2000),
                 Ask (prompt_cli @ ''- summary'')])) \<and>
   commit_message 2 (char_llm demo_answer) ''gpt-3.5-turbo'' (two_files 4000 4000) prompt_cli =
     None \<and>
   count_list [''- summary'', ''## More Detail'', two_files 2000 4000,
               ''## More Detail'', ''## More Detail'', two_files 3000 4000]
     ''## More Detail'' = 3 \<and>
   4097 < get_num_tokens (char_llm demo_answer) (prompt_cli @ two_files 2000 4000) \<and>
   commit_message 1 (char_llm demo_answer) ''gpt-3.5-turbo'' (two_files 2000 4000) prompt_cli =
     Some (Inr (''- summary'' @
                concat (map ((@) [CHR 0x0A, CHR 0x0A]) [''## More Detail'', ''- summary'']),
                [Summarize 0 (two_files 2000 4000) splitre_default prompt_default,
                 Ask (prompt_default @ file_a 2000),
                 Ask (prompt_cli @ ''- summary'')]))"
proof -
  let ?llm = "char_llm demo_answer"
  let ?m = "''gpt-3.5-turbo''"
  let ?t0 = "[Summarize 0 (two_files 4000 4000) splitre_default prompt_default,
              Ask (prompt_default @ file_a 4000)]"
  let ?t1 = "?t0 @ [Summarize 0 (two_files 3000 4000) splitre_default prompt_compress,
                    Ask (prompt_compress @ file_a 3000)]"
  let ?t2 = "?t1 @ [Summarize 0 (two_files 2000 4000) splitre_default prompt_compress,
                    Ask (prompt_compress @ file_a 2000)]"
  let ?v0 = "[Summarize 0 (two_files 2000 4000) splitre_default prompt_default,
              Ask (prompt_default @ file_a 2000)]"
  let ?later = "[([two_files 2000 4000], ?t1), ([''- summary''], ?t2)]"
  have over: "4097 < get_num_tokens ?llm (prompt_cli @ two_files 4000 4000)"
    and overz: "4097 < get_num_tokens ?llm (prompt_cli @ two_files 2000 4000)"
    by simp_all
  have a: "demo_answer (prompt_default @ file_a 4000) = two_files 3000 4000"
    "demo_answer (prompt_compress @ file_a 3000) = two_files 2000 4000"
    "demo_answer (prompt_compress @ file_a 2000) = ''- summary''"
    "demo_answer (prompt_default @ file_a 2000) = ''- summary''"
    "demo_answer (prompt_cli @ ''- summary'') = ''- summary''"
    by (simp_all add: demo_answer_def)
  have h1: "summarize ?llm ?m 0 (two_files 4000 4000) splitre_default prompt_default [] =
              Inr ([two_files 3000 4000], ?t0)"
    using summarize_two_files_len [of prompt_default 4000 4000 demo_answer 0
        "[BlankLine, Newline]" "[]"] a
    by (simp add: splitre_default_def)
  have h2: "summarize ?llm ?m 0 (join sep [two_files 3000 4000]) splitre_default
              prompt_compress ?t0 = Inr ([two_files 2000 4000], ?t1)"
    using summarize_two_files_len [of prompt_compress 3000 4000 demo_answer 0
        "[BlankLine, Newline]" ?t0] a
    by (simp add: splitre_default_def)
  have h3: "summarize ?llm ?m 0 (join sep [two_files 2000 4000]) splitre_default
              prompt_compress ?t1 = Inr ([''- summary''], ?t2)"
    using summarize_two_files_len [of prompt_compress 2000 4000 demo_answer 0
        "[BlankLine, Newline]" ?t1] a
    by (simp add: splitre_default_def)
  have hz: "summarize ?llm ?m 0 (two_files 2000 4000) splitre_default prompt_default [] =
              Inr ([''- summary''], ?v0)"
    using summarize_two_files_len [of prompt_default 2000 4000 demo_answer 0
        "[BlankLine, Newline]" "[]"] a
    by (simp add: splitre_default_def)
  have f1: "4097 < get_num_tokens ?llm (prompt_cli @ join sep [two_files 3000 4000])"
    and f2: "4097 < get_num_tokens ?llm (prompt_cli @ join sep [two_files 2000 4000])"
    and f3: "get_num_tokens ?llm (prompt_cli @ join sep [''- summary'']) \<le> 4097"
    by simp_all
  have passes: "spec_passes ?llm ?m prompt_cli 4097 ([two_files 3000 4000], ?t0) ?later"
    using h2 h3 f1 f2 f3 by simp
  note T = layered_document [OF budget_gpt35, where llm = ?llm and prompt = prompt_cli
      and diff = "two_files 4000 4000" and ?s0.0 = "[two_files 3000 4000]" and ?t0.0 = ?t0
      and later = ?later and extra = 0 and ?fuel1.0 = 3
      and ?s1.0 = "[two_files 2000 4000]" and ?t1.0 = ?t1
      and ?s2.0 = "[''- summary'']" and ?t2.0 = ?t2
      and dz = "two_files 2000 4000" and ?z0.0 = "[''- summary'']" and ?v0.0 = ?v0]
  from T over h1 passes
  have run: "commit_message (Suc (length ?later + 0)) ?llm ?m (two_files 4000 4000) prompt_cli =
         Some (Inr (ask ?llm (prompt_cli @ join sep (fst (last (([two_files 3000 4000], ?t0) # ?later)))) @
                    concat (map ((@) [CHR 0x0A, CHR 0x0A])
                      (fold (\<lambda>s r. s @ [''## More Detail''] @ r) (map fst ?later)
                         (''## More Detail'' # [two_files 3000 4000]))),
                    snd (last (([two_files 3000 4000], ?t0) # ?later)) @
                    [Ask (prompt_cli @ join sep (fst (last (([two_files 3000 4000], ?t0) # ?later))))]))"
    and short: "\<forall>fuel\<le>length ?later.
                  commit_message fuel ?llm ?m (two_files 4000 4000) prompt_cli = None"
    and cnt: "count_list (fold (\<lambda>s r. s @ [''## More Detail''] @ r) (map fst ?later)
                     (''## More Detail'' # [two_files 3000 4000])) ''## More Detail'' =
         Suc (length ?later) +
         count_list (concat ([two_files 3000 4000] # map fst ?later)) ''## More Detail''"
    by blast+
  from T overz hz f3
  have zero: "commit_message (Suc 0) ?llm ?m (two_files 2000 4000) prompt_cli =
         Some (Inr (ask ?llm (prompt_cli @ join sep [''- summary'']) @
                    concat (map ((@) [CHR 0x0A, CHR 0x0A]) (''## More Detail'' # [''- summary''])),
                    ?v0 @ [Ask (prompt_cli @ join sep [''- summary''])]))"
    by blast
  have c3: "commit_message 3 ?llm ?m (two_files 4000 4000) prompt_cli =
     Some (Inr (''- summary'' @
                concat (map ((@) [CHR 0x0A, CHR 0x0A])
                  [''- summary'', ''## More Detail'', two_files 2000 4000,
                   ''## More Detail'', ''## More Detail'', two_files 3000 4000]),
                ?t2 @ [Ask (prompt_cli @ ''- summary'')]))"
    using run a by (simp add: numeral_3_eq_3)
  have c2: "commit_message 2 ?llm ?m (two_files 4000 4000) prompt_cli = None"
    using short by simp
  have neq: "two_files 2000 4000 \<noteq> ''## More Detail''" "two_files 3000 4000 \<noteq> ''## More Detail''"
    by (simp_all add: two_files_def)
  have c: "count_list [''- summary'', ''## More Detail'', two_files 2000 4000,
               ''## More Detail'', ''## More Detail'', two_files 3000 4000]
     ''## More Detail'' = 3"
    using cnt neq by simp
  have z: "commit_message 1 ?llm ?m (two_files 2000 4000) prompt_cli =
     Some (Inr (''- summary'' @
                concat (map ((@) [CHR 0x0A, CHR 0x0A]) [''## More Detail'', ''- summary'']),
                ?v0 @ [Ask (prompt_cli @ ''- summary'')]))"
    using zero a by simp
  show ?thesis
    using over overz passes c3 c2 c z by simp
qed

end
